theory Spec2Isabelle
  imports Main "HOL-Library.Word"
begin

unbundle bit_operations_syntax

section \<open>Common data\<close>

text \<open>
  A Python \<open>str\<close> is a sequence of Unicode code points; it is modelled as the list of
  its code points, so that \<open>ord(c)\<close> is the element itself and \<open>len\<close> is
  \<^const>\<open>length\<close>. A one-character string is a one-element list and \<open>""\<close> is \<open>[]\<close>.
\<close>

type_synonym str = "nat list"

definition str_of :: "string \<Rightarrow> str" where
  "str_of cs = map of_char cs"

text \<open>
  Modelled from the spec: the enumeration \<open>TokenType\<close> of \<open>ecco/scanning/ecco_token.py\<close>
  (a closed enumeration with an end-of-file kind, an integer-literal kind, keywords,
  punctuation and an "unknown" sentinel). The members the source refers to by name are
  constructors of their own; every other member is \<open>OTHER k\<close>.
\<close>

datatype TokenType = EOF | INTEGER_LITERAL | UNKNOWN_TOKEN | PRINT | SEMICOLON | OTHER nat

text \<open>The text of an \<open>EccoSyntaxError\<close>, kept structured: the three f-strings of the source.\<close>

datatype syntax_message =
    Expected_but_got TokenType TokenType
  | Unrecognized_identifier str
  | Unrecognized_token str

text \<open>
  Every exception the modelled code can raise. \<open>TypeError n\<close> is the error of
  \<open>put_back\<close>, carrying the length \<open>n\<close> that its message reports; \<open>ValueError\<close> is
  what \<open>int()\<close> raises; \<open>AttributeError\<close> is the read of \<open>current_token\<close> before the
  first \<open>scan\<close>; \<open>RecursionError\<close> is Python's recursion limit.
\<close>

datatype error =
    ZeroDivisionError
  | IndexError
  | RecursionError
  | TypeError nat
  | ValueError
  | AttributeError
  | EccoIdentifierError string
  | EccoSyntaxError syntax_message

section \<open>Symbol table entries\<close>

datatype SymbolTableEntry =
  SymbolTableEntry (identifier_name: str) (entry_value: int) (entry_next: "SymbolTableEntry option")

text \<open>The constructor \<open>SymbolTableEntry(name, value)\<close>: \<open>next\<close> starts as \<open>None\<close>.\<close>

definition SymbolTableEntry_init :: "str \<Rightarrow> int \<Rightarrow> SymbolTableEntry" where
  "SymbolTableEntry_init name v = SymbolTableEntry name v None"

section \<open>Python list indexing\<close>

text \<open>
  \<open>xs[i]\<close> and \<open>xs[i] = v\<close> on a Python list of \<open>n\<close> elements: the indices \<open>0 .. n - 1\<close>
  name the elements from the front, \<open>-n .. -1\<close> name them from the back, and every other
  index raises \<open>IndexError\<close>. \<open>list_position\<close> is the position an index names, if any.
\<close>

definition list_position :: "nat \<Rightarrow> int \<Rightarrow> nat option" where
  "list_position n i =
     (if 0 \<le> i \<and> i < int n then Some (nat i)
      else if - int n \<le> i \<and> i < 0 then Some (nat (int n + i))
      else None)"

definition list_getitem :: "'a list \<Rightarrow> int \<Rightarrow> error + 'a" where
  "list_getitem xs i =
     (case list_position (length xs) i of
        None \<Rightarrow> Inl IndexError
      | Some k \<Rightarrow> Inr (xs ! k))"

definition list_setitem :: "'a list \<Rightarrow> int \<Rightarrow> 'a \<Rightarrow> error + 'a list" where
  "list_setitem xs i v =
     (case list_position (length xs) i of
        None \<Rightarrow> Inl IndexError
      | Some k \<Rightarrow> Inr (xs[k := v]))"

section \<open>The hash-indexed symbol table\<close>

definition FNV_OFFSET_BASIS :: int where
  "FNV_OFFSET_BASIS = 0xCBF29CE484222325"

definition FNV_PRIME :: int where
  "FNV_PRIME = 0x100000001B3"

record HashTableSymbolTable =
  ht_data :: "SymbolTableEntry option list"

text \<open>\<open>HashTableSymbolTable(length)\<close>: \<open>[None] * length\<close> is empty for a negative length.\<close>

definition HashTableSymbolTable_init :: "int \<Rightarrow> HashTableSymbolTable" where
  "HashTableSymbolTable_init len = \<lparr>ht_data = replicate (nat len) None\<rparr>"

definition ht_length :: "HashTableSymbolTable \<Rightarrow> int" where
  "ht_length self = int (length (ht_data self))"

definition resize :: "HashTableSymbolTable \<Rightarrow> int \<Rightarrow> HashTableSymbolTable" where
  "resize self factor = self\<lparr>ht_data := ht_data self @ replicate (nat factor) None\<rparr>"

text \<open>
  One round of the loop of \<open>hash\<close>: \<open>hash ^= ord(c); hash *= FNV_PRIME\<close>, on Python's
  unbounded integers.
\<close>

definition hash_step :: "int \<Rightarrow> nat \<Rightarrow> int" where
  "hash_step h c = (h XOR int c) * FNV_PRIME"

definition hash_loop :: "str \<Rightarrow> int" where
  "hash_loop s = foldl hash_step FNV_OFFSET_BASIS s"

text \<open>\<open>hash % self.length\<close> raises \<open>ZeroDivisionError\<close> on a table without slots.\<close>

definition hash :: "HashTableSymbolTable \<Rightarrow> str \<Rightarrow> error + int" where
  "hash self s =
     (let h = hash_loop s
      in if ht_length self = 0 then Inl ZeroDivisionError else Inr (h mod ht_length self))"

definition ht_update ::
  "HashTableSymbolTable \<Rightarrow> str \<Rightarrow> SymbolTableEntry option \<Rightarrow> error + (bool \<times> HashTableSymbolTable)"
where
  "ht_update self identifier entry =
     (case hash self identifier of
        Inl e \<Rightarrow> Inl e
      | Inr id_index \<Rightarrow>
          (case list_getitem (ht_data self) id_index of
             Inl e \<Rightarrow> Inl e
           | Inr slot \<Rightarrow>
               (let symbol_already_exists = (if slot = None then True else False)
                in case list_setitem (ht_data self) id_index entry of
                     Inl e \<Rightarrow> Inl e
                   | Inr d \<Rightarrow> Inr (symbol_already_exists, self\<lparr>ht_data := d\<rparr>))))"

definition ht_get :: "HashTableSymbolTable \<Rightarrow> str \<Rightarrow> error + SymbolTableEntry option" where
  "ht_get self identifier =
     (case hash self identifier of
        Inl e \<Rightarrow> Inl e
      | Inr id_index \<Rightarrow> list_getitem (ht_data self) id_index)"

text \<open>
  The FNV-1a hash as the specification words it: 64-bit offset basis, and for each code
  point \<open>hash = (hash XOR code_point) * prime\<close> under unsigned 64-bit wrap-around.
\<close>

definition fnv1a_64 :: "str \<Rightarrow> 64 word" where
  "fnv1a_64 s =
     foldl (\<lambda>h c. (h XOR word_of_nat c) * 0x100000001B3) 0xCBF29CE484222325 s"

definition spec_hash :: "HashTableSymbolTable \<Rightarrow> str \<Rightarrow> int" where
  "spec_hash self s = uint (fnv1a_64 s) mod ht_length self"

section \<open>The closure-chain symbol table\<close>

text \<open>
  The value of \<open>self.data\<close> is a callable: either the static method \<open>identity_table\<close> or
  a closure \<open>new_symbol_table\<close> made by one call of \<open>update\<close>. The closure's free variables
  are \<open>self\<close>, \<open>identifier\<close> and \<open>entry\<close>; the table is the only \<open>self\<close>, so a closure is
  its \<open>identifier\<close> and \<open>entry\<close>.
\<close>

datatype lookup_function =
    identity_table
  | new_symbol_table str "SymbolTableEntry option"

record FPSymbolTable =
  fp_data :: lookup_function
  fp_length :: int

definition FPSymbolTable_init :: FPSymbolTable where
  "FPSymbolTable_init = \<lparr>fp_data = identity_table, fp_length = 0\<rparr>"

text \<open>
  Calling a lookup function on the table \<open>self\<close>. The body of \<open>new_symbol_table\<close> reads
  \<open>current_symbol_table = self.data\<close> when it is called, so the delegate is whatever
  \<open>self.data\<close> holds at the time of the call. The first argument is the number of Python
  stack frames still available: a call with none left raises \<open>RecursionError\<close>.
\<close>

fun call_lookup ::
  "nat \<Rightarrow> FPSymbolTable \<Rightarrow> lookup_function \<Rightarrow> str \<Rightarrow> error + SymbolTableEntry option"
where
  "call_lookup 0 self f s = Inl RecursionError"
| "call_lookup (Suc depth) self identity_table s = Inr None"
| "call_lookup (Suc depth) self (new_symbol_table identifier entry) s =
     (let current_symbol_table = fp_data self
      in if s = identifier then Inr entry
         else call_lookup depth self current_symbol_table s)"

definition fp_get :: "nat \<Rightarrow> FPSymbolTable \<Rightarrow> str \<Rightarrow> error + SymbolTableEntry option" where
  "fp_get depth self identifier = call_lookup depth self (fp_data self) identifier"

definition fp_update ::
  "nat \<Rightarrow> FPSymbolTable \<Rightarrow> str \<Rightarrow> SymbolTableEntry option \<Rightarrow> error + (bool \<times> FPSymbolTable)"
where
  "fp_update depth self identifier entry =
     (case fp_get depth self identifier of
        Inl e \<Rightarrow> Inl e
      | Inr found \<Rightarrow>
          (let symbol_already_exists = (found \<noteq> None);
               self1 = self\<lparr>fp_data := new_symbol_table identifier entry\<rparr>;
               self2 = (if \<not> symbol_already_exists \<and> entry \<noteq> None
                        then self1\<lparr>fp_length := fp_length self1 + 1\<rparr>
                        else if symbol_already_exists \<and> entry = None
                        then self1\<lparr>fp_length := fp_length self1 - 1\<rparr>
                        else self1)
           in Inr (symbol_already_exists, self2)))"


section \<open>The scanner\<close>

text \<open>
  Modelled from the spec: the class \<open>Token\<close> of \<open>ecco/scanning/ecco_token.py\<close>, a kind and
  an optional integer payload; \<open>Token()\<close> is taken to start as the "unknown" sentinel
  without a payload.
\<close>

record Token =
  token_type :: TokenType
  token_value :: "int option"

definition Token_init :: Token where
  "Token_init = \<lparr>token_type = UNKNOWN_TOKEN, token_value = None\<rparr>"

text \<open>
  What the scanner uses and this repository does not define under its sources: the
  character classes behind Python's \<open>str.isalpha\<close>, \<open>str.isdigit\<close> and \<open>str.isspace\<close>
  (Unicode tables), the built-in \<open>int()\<close> on a string, and the token-kind catalog
  \<open>TokenType.from_string\<close> and \<open>TokenType.string_values\<close>. They are parameters of every
  scanner function.
\<close>

record catalog =
  alpha_char :: "nat \<Rightarrow> bool"
  digit_char :: "nat \<Rightarrow> bool"
  space_char :: "nat \<Rightarrow> bool"
  int_of_str :: "str \<Rightarrow> error + int"
  from_string :: "str \<Rightarrow> TokenType"
  string_values :: "str list"

text \<open>
  \<open>s.isalpha()\<close>, \<open>s.isdigit()\<close>, \<open>s.isspace()\<close>: true when the string is not empty and
  every character is in the class.
\<close>

definition isalpha :: "catalog \<Rightarrow> str \<Rightarrow> bool" where
  "isalpha cat c = (c \<noteq> [] \<and> list_all (alpha_char cat) c)"

definition isdigit :: "catalog \<Rightarrow> str \<Rightarrow> bool" where
  "isdigit cat c = (c \<noteq> [] \<and> list_all (digit_char cat) c)"

definition isspace :: "catalog \<Rightarrow> str \<Rightarrow> bool" where
  "isspace cat c = (c \<noteq> [] \<and> list_all (space_char cat) c)"

text \<open>
  The test of the loop of \<open>scan_identifier\<close>, \<open>c.isalpha() or c == "_"\<close>, on a string of
  one character.
\<close>

definition identifier_char :: "catalog \<Rightarrow> nat \<Rightarrow> bool" where
  "identifier_char cat x = (alpha_char cat x \<or> x = 95)"

text \<open>
  The state of an opened scanner. \<open>file_rest\<close> is the text the file object has not delivered
  yet, so \<open>self.file.read(1)\<close> is \<open>take 1\<close> of it and leaves \<open>drop 1\<close>.
  \<open>current_token\<close> has no value before the first \<open>scan\<close>.
\<close>

record Scanner =
  file_rest :: str
  put_back_buffer :: str
  line_number :: int
  char_number :: int
  current_token :: "Token option"

definition Scanner_init :: "str \<Rightarrow> Scanner" where
  "Scanner_init contents =
     \<lparr>file_rest = contents, put_back_buffer = [], line_number = 1, char_number = 1,
      current_token = None\<rparr>"

definition next_character :: "Scanner \<Rightarrow> str \<times> Scanner" where
  "next_character self =
     (if put_back_buffer self \<noteq> [] then
        (put_back_buffer self, self\<lparr>put_back_buffer := []\<rparr>)
      else
        (let c = take 1 (file_rest self);
             self1 = self\<lparr>file_rest := drop 1 (file_rest self), char_number := char_number self + 1\<rparr>
         in if c = [10]
            then (c, self1\<lparr>line_number := line_number self1 + 1, char_number := 1\<rparr>)
            else (c, self1)))"

text \<open>
  The loops of the scanner read until a character fails a test; the empty string of the
  end of input fails every test. What is left to read is the measure.
\<close>

definition unread :: "Scanner \<Rightarrow> nat" where
  "unread self = length (file_rest self) + length (put_back_buffer self)"

function skip_loop :: "catalog \<Rightarrow> str \<Rightarrow> Scanner \<Rightarrow> str \<times> Scanner" where
  "skip_loop cat c self =
     (if isspace cat c
      then (let r = next_character self in skip_loop cat (fst r) (snd r))
      else (c, self))"
  by pat_completeness auto
termination
  by (relation "measure (\<lambda>(cat, c, self). length c + unread self)")
     (auto simp: next_character_def unread_def isspace_def Let_def neq_Nil_conv min_def)

definition skip :: "catalog \<Rightarrow> Scanner \<Rightarrow> str \<times> Scanner" where
  "skip cat self = (let r = next_character self in skip_loop cat (fst r) (snd r))"

definition put_back :: "Scanner \<Rightarrow> str \<Rightarrow> error + Scanner" where
  "put_back self c =
     (if length c \<noteq> 1 then Inl (TypeError (length c))
      else Inr (self\<lparr>put_back_buffer := c\<rparr>))"

function scan_integer_literal_loop :: "catalog \<Rightarrow> str \<Rightarrow> str \<Rightarrow> Scanner \<Rightarrow> str \<times> str \<times> Scanner" where
  "scan_integer_literal_loop cat in_string c self =
     (if isdigit cat c
      then (let in_string1 = in_string @ c;
                r = next_character self
            in scan_integer_literal_loop cat in_string1 (fst r) (snd r))
      else (in_string, c, self))"
  by pat_completeness auto
termination
  by (relation "measure (\<lambda>(cat, in_string, c, self). length c + unread self)")
     (auto simp: next_character_def unread_def isdigit_def Let_def neq_Nil_conv min_def)

definition scan_integer_literal :: "catalog \<Rightarrow> Scanner \<Rightarrow> str \<Rightarrow> error + (int \<times> Scanner)" where
  "scan_integer_literal cat self c =
     (case scan_integer_literal_loop cat [] c self of
        (in_string, c1, self1) \<Rightarrow>
          (case put_back self1 c1 of
             Inl e \<Rightarrow> Inl e
           | Inr self2 \<Rightarrow>
               (case int_of_str cat in_string of
                  Inl e \<Rightarrow> Inl e
                | Inr v \<Rightarrow> Inr (v, self2))))"

function scan_identifier_loop ::
  "catalog \<Rightarrow> str \<Rightarrow> str \<Rightarrow> Scanner \<Rightarrow> error + (str \<times> str \<times> Scanner)"
where
  "scan_identifier_loop cat identifier c self =
     (if isalpha cat c \<or> c = [95] then
        (let identifier1 = identifier @ c;
             r = next_character self
         in if length identifier1 \<ge> 512
            then Inl (EccoIdentifierError ''Identifier is too long!'')
            else scan_identifier_loop cat identifier1 (fst r) (snd r))
      else Inr (identifier, c, self))"
  by pat_completeness auto
termination
  by (relation "measure (\<lambda>(cat, identifier, c, self). length c + unread self)")
     (auto simp: next_character_def unread_def isalpha_def Let_def neq_Nil_conv min_def)

definition scan_identifier :: "catalog \<Rightarrow> Scanner \<Rightarrow> str \<Rightarrow> error + (str \<times> Scanner)" where
  "scan_identifier cat self c =
     (case scan_identifier_loop cat [] c self of
        Inl e \<Rightarrow> Inl e
      | Inr (identifier, c1, self1) \<Rightarrow>
          (case put_back self1 c1 of
             Inl e \<Rightarrow> Inl e
           | Inr self2 \<Rightarrow> Inr (identifier, self2)))"


text \<open>
  \<open>scan\<close> skips white space, installs a fresh token and classifies the character it
  stopped at. The two \<open>print\<close> calls of the source write to standard output only and are
  left out. The token returned is the scanner's new \<open>current_token\<close>.
\<close>

definition return_token :: "Scanner \<Rightarrow> Token \<Rightarrow> error + (Token \<times> Scanner)" where
  "return_token self tok = Inr (tok, self\<lparr>current_token := Some tok\<rparr>)"

definition scan :: "catalog \<Rightarrow> Scanner \<Rightarrow> error + (Token \<times> Scanner)" where
  "scan cat self =
     (case skip cat self of
        (c, self1) \<Rightarrow>
          (let tok = Token_init in
           if c = [] then return_token self1 (tok\<lparr>token_type := EOF\<rparr>)
           else
             (let possible_token_type = from_string cat c in
              if possible_token_type = UNKNOWN_TOKEN then
                (if isdigit cat c then
                   (case scan_integer_literal cat self1 c of
                      Inl e \<Rightarrow> Inl e
                    | Inr (v, self2) \<Rightarrow>
                        return_token self2
                          (tok\<lparr>token_type := INTEGER_LITERAL, token_value := Some v\<rparr>))
                 else if isalpha cat c \<or> c = [95] then
                   (case scan_identifier cat self1 c of
                      Inl e \<Rightarrow> Inl e
                    | Inr (scanned_identifier, self2) \<Rightarrow>
                        (if scanned_identifier \<in> set (string_values cat)
                         then return_token self2
                                (tok\<lparr>token_type := from_string cat scanned_identifier\<rparr>)
                         else Inl (EccoSyntaxError (Unrecognized_identifier scanned_identifier))))
                 else Inl (EccoSyntaxError (Unrecognized_token c)))
              else return_token self1 (tok\<lparr>token_type := possible_token_type\<rparr>))))"

section \<open>The statement driver\<close>

text \<open>
  \<open>GLOBAL_SCANNER\<close> is the one scanner of the compilation; it is passed and returned.
  The expression parser \<open>parse_binary_expression\<close> lives outside the modelled sources:
  it is a parameter that takes the minimum precedence and the scanner and returns an
  AST node and the scanner, or raises.
\<close>

type_synonym 'ast expression_parser = "int \<Rightarrow> Scanner \<Rightarrow> error + ('ast \<times> Scanner)"

definition current_token_type :: "Scanner \<Rightarrow> error + TokenType" where
  "current_token_type self =
     (case current_token self of
        None \<Rightarrow> Inl AttributeError
      | Some tok \<Rightarrow> Inr (token_type tok))"

definition match_token :: "catalog \<Rightarrow> TokenType \<Rightarrow> Scanner \<Rightarrow> error + Scanner" where
  "match_token cat tt self =
     (case current_token_type self of
        Inl e \<Rightarrow> Inl e
      | Inr actual \<Rightarrow>
          (if actual = tt then
             (case scan cat self of
                Inl e \<Rightarrow> Inl e
              | Inr (tok, self1) \<Rightarrow> Inr self1)
           else Inl (EccoSyntaxError (Expected_but_got tt actual))))"

text \<open>
  \<open>parse_statements\<close> is a generator. One resumption of it runs from the loop test to the
  next \<open>yield\<close>: the result is \<open>Some tree\<close> for a yielded tree and \<open>None\<close> when the
  generator returns (the loop test found end-of-file).
\<close>

definition parse_statements_next ::
  "catalog \<Rightarrow> 'ast expression_parser \<Rightarrow> Scanner \<Rightarrow> error + ('ast option \<times> Scanner)"
where
  "parse_statements_next cat parse_binary_expression self =
     (case current_token_type self of
        Inl e \<Rightarrow> Inl e
      | Inr actual \<Rightarrow>
          (if actual \<noteq> EOF then
             (case match_token cat PRINT self of
                Inl e \<Rightarrow> Inl e
              | Inr self1 \<Rightarrow>
                  (case parse_binary_expression 0 self1 of
                     Inl e \<Rightarrow> Inl e
                   | Inr (tree, self2) \<Rightarrow>
                       (case match_token cat SEMICOLON self2 of
                          Inl e \<Rightarrow> Inl e
                        | Inr self3 \<Rightarrow> Inr (Some tree, self3))))
           else Inr (None, self)))"

section \<open>A small catalog for worked examples\<close>

text \<open>
  Modelled from the spec: an instance of the token-kind catalog and of the character
  classes, restricted to ASCII: letters, decimal digits, the six ASCII white-space
  characters, decimal \<open>int()\<close>, and the two spellings \<open>print\<close> and \<open>;\<close> that the statement
  driver expects.
\<close>

definition ascii_catalog :: catalog where
  "ascii_catalog =
     \<lparr>alpha_char = (\<lambda>c. (65 \<le> c \<and> c \<le> 90) \<or> (97 \<le> c \<and> c \<le> 122)),
      digit_char = (\<lambda>c. 48 \<le> c \<and> c \<le> 57),
      space_char = (\<lambda>c. (9 \<le> c \<and> c \<le> 13) \<or> c = 32),
      int_of_str = (\<lambda>s. Inr (foldl (\<lambda>a d. 10 * a + (int d - 48)) 0 s)),
      from_string = (\<lambda>s. if s = str_of ''print'' then PRINT
                          else if s = str_of '';'' then SEMICOLON
                          else UNKNOWN_TOKEN),
      string_values = [str_of ''print'', str_of '';'']\<rparr>"

text \<open>
  A stand-in for the expression parser in worked examples: it accepts one integer literal,
  returns its value as the tree and scans the next token.
\<close>

definition literal_parser :: "int expression_parser" where
  "literal_parser min_precedence self =
     (case current_token self of
        None \<Rightarrow> Inl AttributeError
      | Some tok \<Rightarrow>
          (case token_value tok of
             None \<Rightarrow> Inl (EccoSyntaxError (Expected_but_got INTEGER_LITERAL (token_type tok)))
           | Some v \<Rightarrow>
               (case scan ascii_catalog self of
                  Inl e \<Rightarrow> Inl e
                | Inr (tok1, self1) \<Rightarrow> Inr (v, self1))))"

section \<open>Properties of the hash-indexed table\<close>

lemma ht_update_keeps_length:
  "ht_update self identifier entry = Inr (b, self1) \<Longrightarrow> ht_length self1 = ht_length self"
  by (auto simp: ht_update_def list_setitem_def list_getitem_def list_position_def
             ht_length_def Let_def
           split: sum.splits if_splits option.splits)

lemma hash_range:
  "hash self s = Inr i \<Longrightarrow> 0 \<le> i \<and> i < ht_length self"
  by (auto simp: hash_def Let_def ht_length_def split: if_splits)

lemma hash_depends_on_length:
  "ht_length self1 = ht_length self \<Longrightarrow> hash self1 s = hash self s"
  by (simp add: hash_def)

lemma ht_update_result:
  assumes "hash self identifier = Inr i"
  shows "ht_update self identifier entry =
           Inr (ht_data self ! nat i = None, self\<lparr>ht_data := (ht_data self)[nat i := entry]\<rparr>)"
  using hash_range [OF assms] assms
  by (simp add: ht_update_def list_getitem_def list_setitem_def list_position_def
        ht_length_def Let_def)

lemma ht_get_result:
  assumes "hash self identifier = Inr i"
  shows "ht_get self identifier = Inr (ht_data self ! nat i)"
  using hash_range [OF assms] assms
  by (simp add: ht_get_def list_getitem_def list_position_def ht_length_def Let_def)

lemma hash_x_512: "hash (HashTableSymbolTable_init 512) (str_of ''x'') = Inr 263"
  by (simp add: hash_def hash_loop_def hash_step_def FNV_OFFSET_BASIS_def FNV_PRIME_def
        HashTableSymbolTable_init_def ht_length_def str_of_def)

text \<open>
  Claim C1 says that \<open>update\<close> of the hash-indexed table returns true precisely when the
  target slot held an entry before the write. The code tests \<open>is None\<close> and sets the flag
  then: on a fresh table of 512 slots the slot of \<open>"x"\<close> (index 263) is empty, and
  \<open>update("x", entry)\<close> returns \<open>True\<close>, for every \<open>entry\<close>.
\<close>
theorem ht_update_true_on_empty_slot:
  "ht_get (HashTableSymbolTable_init 512) (str_of ''x'') = Inr None \<and>
   ht_update (HashTableSymbolTable_init 512) (str_of ''x'') entry =
     Inr (True, (HashTableSymbolTable_init 512)
                  \<lparr>ht_data := (ht_data (HashTableSymbolTable_init 512))[263 := entry]\<rparr>)"
  using ht_get_result [OF hash_x_512] ht_update_result [OF hash_x_512, of entry]
  by (simp add: HashTableSymbolTable_init_def)

text \<open>
  Claim C4: when two names \<open>a\<close> and \<open>b\<close> hash to the same slot of a table, \<open>update(a, E1)\<close>
  followed by \<open>update(b, E2)\<close> both succeed, leave the slot count as it was, and a following
  \<open>get(a)\<close> returns \<open>E2\<close>: the second write overwrites the first without any check of the
  name.
\<close>
theorem ht_collision_overwrites:
  assumes "hash self a = Inr i" and "hash self b = Inr i"
  shows "\<exists>r1 self1 r2 self2.
           ht_update self a E1 = Inr (r1, self1) \<and>
           ht_update self1 b E2 = Inr (r2, self2) \<and>
           ht_length self2 = ht_length self \<and>
           ht_get self2 a = Inr E2"
proof -
  let ?s1 = "self\<lparr>ht_data := (ht_data self)[nat i := E1]\<rparr>"
  let ?s2 = "?s1\<lparr>ht_data := (ht_data ?s1)[nat i := E2]\<rparr>"
  have len1: "ht_length ?s1 = ht_length self" by (simp add: ht_length_def)
  have len2: "ht_length ?s2 = ht_length self" by (simp add: ht_length_def)
  have u1: "ht_update self a E1 = Inr (ht_data self ! nat i = None, ?s1)"
    by (rule ht_update_result [OF assms(1)])
  have hb: "hash ?s1 b = Inr i"
    using assms(2) hash_depends_on_length [OF len1] by simp
  have u2: "ht_update ?s1 b E2 = Inr (ht_data ?s1 ! nat i = None, ?s2)"
    by (rule ht_update_result [OF hb])
  have ha: "hash ?s2 a = Inr i"
    using assms(1) hash_depends_on_length [OF len2] by simp
  have "nat i < length (ht_data self)"
    using hash_range [OF assms(1)] by (auto simp: ht_length_def)
  then have g: "ht_get ?s2 a = Inr E2"
    using ht_get_result [OF ha] by simp
  show ?thesis using u1 u2 len2 g by blast
qed

lemma hash_a_512: "hash (HashTableSymbolTable_init 512) (str_of ''a'') = Inr 140"
  by (simp add: hash_def hash_loop_def hash_step_def FNV_OFFSET_BASIS_def FNV_PRIME_def
        HashTableSymbolTable_init_def ht_length_def str_of_def)

lemma hash_gb_512: "hash (HashTableSymbolTable_init 512) (str_of ''gb'') = Inr 140"
  by (simp add: hash_def hash_loop_def hash_step_def FNV_OFFSET_BASIS_def FNV_PRIME_def
        HashTableSymbolTable_init_def ht_length_def str_of_def)

theorem ht_collision_overwrites_witness:
  "str_of ''a'' \<noteq> str_of ''gb'' \<and>
   hash (HashTableSymbolTable_init 512) (str_of ''a'') = Inr 140 \<and>
   hash (HashTableSymbolTable_init 512) (str_of ''gb'') = Inr 140 \<and>
   (\<exists>r1 self1 r2 self2.
      ht_update (HashTableSymbolTable_init 512) (str_of ''a'')
        (Some (SymbolTableEntry_init (str_of ''a'') 1)) = Inr (r1, self1) \<and>
      ht_update self1 (str_of ''gb'') (Some (SymbolTableEntry_init (str_of ''gb'') 2)) = Inr (r2, self2) \<and>
      ht_length self2 = ht_length (HashTableSymbolTable_init 512) \<and>
      ht_get self2 (str_of ''a'') = Inr (Some (SymbolTableEntry_init (str_of ''gb'') 2)))"
  using ht_collision_overwrites [OF hash_a_512 hash_gb_512,
          of "Some (SymbolTableEntry_init (str_of ''a'') 1)"
             "Some (SymbolTableEntry_init (str_of ''gb'') 2)"]
        hash_a_512 hash_gb_512
  by (simp add: str_of_def)

text \<open>
  Claim C8: for a positive \<open>factor\<close>, \<open>resize(factor)\<close> appends exactly \<open>factor\<close> empty
  slots to the backing list, the length grows by \<open>factor\<close>, and the entry at every index
  below the old length is unchanged.
\<close>
theorem resize_appends_empty_slots:
  assumes "0 < factor"
  shows "ht_data (resize self factor) = ht_data self @ replicate (nat factor) None \<and>
         ht_length (resize self factor) = ht_length self + factor \<and>
         (\<forall>i < length (ht_data self). ht_data (resize self factor) ! i = ht_data self ! i) \<and>
         (\<forall>i. 0 \<le> i \<and> i < ht_length self \<longrightarrow>
               list_getitem (ht_data (resize self factor)) i = list_getitem (ht_data self) i)"
  using assms
  by (auto simp: resize_def ht_length_def nth_append list_getitem_def list_position_def)

theorem resize_appends_empty_slots_witness:
  "(0::int) < 2 \<and>
   ht_data (resize \<lparr>ht_data = [Some (SymbolTableEntry_init (str_of ''x'') 7), None]\<rparr> 2) =
     [Some (SymbolTableEntry_init (str_of ''x'') 7), None, None, None] \<and>
   ht_length (resize \<lparr>ht_data = [Some (SymbolTableEntry_init (str_of ''x'') 7), None]\<rparr> 2) = 4 \<and>
   ht_data (resize \<lparr>ht_data = [Some (SymbolTableEntry_init (str_of ''x'') 7), None]\<rparr> 2) ! 0 =
     Some (SymbolTableEntry_init (str_of ''x'') 7)"
proof -
  have pos: "(0::int) < 2" by simp
  have two: "replicate 2 None = [None, None :: SymbolTableEntry option]"
    by (simp add: numeral_2_eq_2)
  show ?thesis
    using resize_appends_empty_slots
            [OF pos, of "\<lparr>ht_data = [Some (SymbolTableEntry_init (str_of ''x'') 7), None]\<rparr>"]
    by (simp add: two ht_length_def)
qed

section \<open>FNV-1a and the closure-chain table\<close>

lemma hash_loop_as_word:
  "(word_of_int (foldl hash_step h s) :: 64 word) =
     foldl (\<lambda>h c. (h XOR word_of_nat c) * 0x100000001B3) (word_of_int h) s"
proof (induction s arbitrary: h)
  case Nil
  show ?case by simp
next
  case (Cons c s)
  have "(word_of_int (hash_step h c) :: 64 word) = (word_of_int h XOR word_of_nat c) * 0x100000001B3"
    by (simp add: hash_step_def FNV_PRIME_def of_int_xor_eq)
  with Cons.IH [of "hash_step h c"] show ?case by simp
qed

lemma fnv1a_64_hash_loop: "uint (fnv1a_64 s) = hash_loop s mod 2 ^ 64"
proof -
  have "fnv1a_64 s = word_of_int (hash_loop s)"
    unfolding fnv1a_64_def hash_loop_def hash_loop_as_word
    by (simp add: FNV_OFFSET_BASIS_def)
  then show ?thesis
    by (simp add: uint_word_of_int_eq take_bit_eq_mod)
qed

lemma hash_agrees_when_length_divides:
  assumes "ht_length self dvd 2 ^ 64"
  shows "hash self s = Inr (spec_hash self s)"
proof -
  have "ht_length self \<noteq> 0" using assms by auto
  moreover have "hash_loop s mod 2 ^ 64 mod ht_length self = hash_loop s mod ht_length self"
    using assms by (rule mod_mod_cancel)
  ultimately show ?thesis
    by (simp add: hash_def spec_hash_def fnv1a_64_hash_loop)
qed

text \<open>
  Claim C3 says that \<open>hash(s)\<close> is the 64-bit FNV-1a hash of \<open>s\<close> modulo the slot count.
  The code never reduces modulo \<open>2 ^ 64\<close>: on the default table after \<open>resize(2)\<close>, which has
  514 slots, \<open>hash("a")\<close> is 432 while 64-bit FNV-1a of \<open>"a"\<close> modulo 514 is 322.
\<close>
theorem hash_is_not_fnv1a_64:
  "hash (resize (HashTableSymbolTable_init 512) 2) (str_of ''a'') = Inr 432 \<and>
   spec_hash (resize (HashTableSymbolTable_init 512) 2) (str_of ''a'') = 322"
  by (simp add: hash_def spec_hash_def fnv1a_64_hash_loop hash_loop_def hash_step_def
        FNV_OFFSET_BASIS_def FNV_PRIME_def resize_def HashTableSymbolTable_init_def
        ht_length_def str_of_def)

lemma call_lookup_self_reference:
  assumes "fp_data self = new_symbol_table identifier entry" and "s \<noteq> identifier"
  shows "call_lookup depth self (new_symbol_table identifier entry) s = Inl RecursionError"
  using assms by (induction depth) simp_all

lemma fp_get_other_name:
  assumes "fp_data self = new_symbol_table identifier entry" and "s \<noteq> identifier"
  shows "fp_get depth self s = Inl RecursionError"
  using call_lookup_self_reference [OF assms] assms(1) by (simp add: fp_get_def)

lemma fp_get_same_name:
  assumes "fp_data self = new_symbol_table identifier entry"
  shows "fp_get (Suc depth) self identifier = Inr entry"
  using assms by (simp add: fp_get_def)

text \<open>
  Claim C2 says that after any updates \<open>get(name)\<close> of the closure-chain table returns the
  entry of the latest update of that name, or absence. On the code, after the single update
  \<open>update("a", E1)\<close> on the empty table, \<open>get("b")\<close> raises \<open>RecursionError\<close> at every
  recursion limit: the closure delegates to \<open>self.data\<close>, which is the closure itself.
\<close>
theorem fp_get_other_name_never_returns:
  "fp_update (Suc depth) FPSymbolTable_init (str_of ''a'') (Some E1) =
     Inr (False, \<lparr>fp_data = new_symbol_table (str_of ''a'') (Some E1), fp_length = 1\<rparr>) \<and>
   fp_get limit \<lparr>fp_data = new_symbol_table (str_of ''a'') (Some E1), fp_length = 1\<rparr> (str_of ''b'') =
     Inl RecursionError"
proof -
  have "str_of ''b'' \<noteq> str_of ''a''" by (simp add: str_of_def)
  then have "fp_get limit \<lparr>fp_data = new_symbol_table (str_of ''a'') (Some E1), fp_length = 1\<rparr> (str_of ''b'') =
     Inl RecursionError"
    by (intro fp_get_other_name [of _ "str_of ''a''" "Some E1"]) simp_all
  then show ?thesis
    by (simp add: fp_update_def fp_get_def FPSymbolTable_init_def)
qed

text \<open>
  Claim C5 says that \<open>length\<close> of the closure-chain table is incremented whenever a name
  without a binding receives an entry. On the code, after \<open>update("a", E1)\<close> on the empty
  table, \<open>update("b", E2)\<close> raises \<open>RecursionError\<close> at every recursion limit (its first
  step is \<open>get("b")\<close>), so the second name is never counted.
\<close>
theorem fp_update_second_name_raises:
  "fp_update (Suc depth) FPSymbolTable_init (str_of ''a'') (Some E1) =
     Inr (False, \<lparr>fp_data = new_symbol_table (str_of ''a'') (Some E1), fp_length = 1\<rparr>) \<and>
   fp_update limit \<lparr>fp_data = new_symbol_table (str_of ''a'') (Some E1), fp_length = 1\<rparr>
     (str_of ''b'') (Some E2) = Inl RecursionError"
proof -
  have "str_of ''b'' \<noteq> str_of ''a''" by (simp add: str_of_def)
  then have "fp_get limit \<lparr>fp_data = new_symbol_table (str_of ''a'') (Some E1), fp_length = 1\<rparr> (str_of ''b'') =
     Inl RecursionError"
    by (intro fp_get_other_name [of _ "str_of ''a''" "Some E1"]) simp_all
  then show ?thesis
    by (simp add: fp_update_def fp_get_def FPSymbolTable_init_def)
qed

section \<open>Properties of the scanner\<close>


declare skip_loop.simps [simp del]
declare scan_integer_literal_loop.simps [simp del]
declare scan_identifier_loop.simps [simp del]

lemma next_character_from_file:
  assumes "put_back_buffer self = []"
  shows "fst (next_character self) = take 1 (file_rest self)"
    and "put_back_buffer (snd (next_character self)) = []"
    and "file_rest (snd (next_character self)) = drop 1 (file_rest self)"
    and "current_token (snd (next_character self)) = current_token self"
  using assms by (simp_all add: next_character_def Let_def)

lemma isalpha_single: "isalpha cat [x] \<or> [x] = [95] \<longleftrightarrow> identifier_char cat x"
  by (simp add: isalpha_def identifier_char_def)

lemma isalpha_take_1:
  "rest = [] \<or> \<not> identifier_char cat (hd rest) \<Longrightarrow>
   \<not> (isalpha cat (take 1 rest) \<or> take 1 rest = [95])"
  by (cases rest) (auto simp: isalpha_def identifier_char_def)

lemma scan_identifier_loop_step:
  assumes "identifier_char cat x"
  shows "scan_identifier_loop cat ident [x] self =
          (if 512 \<le> length (ident @ [x])
           then Inl (EccoIdentifierError ''Identifier is too long!'')
           else scan_identifier_loop cat (ident @ [x])
                  (fst (next_character self)) (snd (next_character self)))"
  using assms
  by (subst scan_identifier_loop.simps)
     (auto simp: isalpha_def identifier_char_def Let_def)

lemma scan_identifier_loop_stop:
  assumes "\<not> (isalpha cat c \<or> c = [95])"
  shows "scan_identifier_loop cat ident c self = Inr (ident, c, self)"
  using assms by (subst scan_identifier_loop.simps) simp

lemma scan_identifier_loop_run:
  assumes "put_back_buffer self = []"
    and "file_rest self = xs @ rest"
    and "\<forall>y \<in> set (x # xs). identifier_char cat y"
    and "rest = [] \<or> \<not> identifier_char cat (hd rest)"
  shows "if 512 \<le> length ident + length (x # xs)
         then scan_identifier_loop cat ident [x] self =
                Inl (EccoIdentifierError ''Identifier is too long!'')
         else \<exists>self1. scan_identifier_loop cat ident [x] self =
                  Inr (ident @ x # xs, take 1 rest, self1) \<and>
                put_back_buffer self1 = [] \<and> file_rest self1 = drop 1 rest \<and>
                current_token self1 = current_token self"
  using assms
proof (induction xs arbitrary: ident x self)
  case Nil
  let ?self1 = "snd (next_character self)"
  have c1: "fst (next_character self) = take 1 rest"
    using Nil.prems by (simp add: next_character_from_file)
  have s1: "put_back_buffer ?self1 = []" "file_rest ?self1 = drop 1 rest"
           "current_token ?self1 = current_token self"
    using Nil.prems by (simp_all add: next_character_from_file)
  have x: "identifier_char cat x" using Nil.prems(3) by simp
  have stop: "scan_identifier_loop cat (ident @ [x]) (take 1 rest) ?self1 =
                Inr (ident @ [x], take 1 rest, ?self1)"
    by (rule scan_identifier_loop_stop [OF isalpha_take_1 [OF Nil.prems(4)]])
  show ?case
    using scan_identifier_loop_step [OF x, of ident self] c1 stop s1 by auto
next
  case (Cons y ys)
  let ?self1 = "snd (next_character self)"
  have c1: "fst (next_character self) = [y]"
    using Cons.prems by (simp add: next_character_from_file)
  have s1: "put_back_buffer ?self1 = []" "file_rest ?self1 = ys @ rest"
           "current_token ?self1 = current_token self"
    using Cons.prems by (simp_all add: next_character_from_file)
  have all: "\<forall>z \<in> set (y # ys). identifier_char cat z"
    using Cons.prems(3) by simp
  note IH = Cons.IH [OF s1(1) s1(2) all Cons.prems(4), of "ident @ [x]"]
  have x: "identifier_char cat x" using Cons.prems(3) by simp
  show ?case
  proof (cases "512 \<le> length (ident @ [x])")
    case True
    then show ?thesis using scan_identifier_loop_step [OF x, of ident self] by simp
  next
    case False
    then show ?thesis
      using scan_identifier_loop_step [OF x, of ident self] c1 IH s1(3)
      by (auto split: if_splits)
  qed
qed

lemma scan_identifier_too_long:
  assumes "put_back_buffer self = []"
    and "file_rest self = xs @ rest"
    and "\<forall>y \<in> set (x # xs). identifier_char cat y"
    and "rest = [] \<or> \<not> identifier_char cat (hd rest)"
    and "512 \<le> length (x # xs)"
  shows "scan_identifier cat self [x] = Inl (EccoIdentifierError ''Identifier is too long!'')"
  using scan_identifier_loop_run [OF assms(1-4), of "[]"] assms(5)
  by (simp add: scan_identifier_def)

lemma scan_identifier_end_of_input:
  assumes "put_back_buffer self = []"
    and "file_rest self = xs"
    and "\<forall>y \<in> set (x # xs). identifier_char cat y"
    and "length (x # xs) < 512"
  shows "scan_identifier cat self [x] = Inl (TypeError 0)"
proof -
  have "file_rest self = xs @ []" using assms(2) by simp
  from scan_identifier_loop_run [OF assms(1) this assms(3), of "[]"] assms(4)
  show ?thesis
    by (auto simp: scan_identifier_def put_back_def)
qed

lemma scan_identifier_terminated:
  assumes "put_back_buffer self = []"
    and "file_rest self = xs @ d # rest"
    and "\<forall>y \<in> set (x # xs). identifier_char cat y"
    and "\<not> identifier_char cat d"
    and "length (x # xs) < 512"
  shows "\<exists>self1. scan_identifier cat self [x] = Inr (x # xs, self1) \<and>
           put_back_buffer self1 = [d] \<and> file_rest self1 = rest \<and>
           current_token self1 = current_token self"
proof -
  have "d # rest = [] \<or> \<not> identifier_char cat (hd (d # rest))"
    using assms(4) by simp
  from scan_identifier_loop_run [OF assms(1,2,3) this, of "[]"] assms(5)
  show ?thesis
    by (auto simp: scan_identifier_def put_back_def)
qed

lemma isdigit_take_1:
  "rest = [] \<or> \<not> digit_char cat (hd rest) \<Longrightarrow> \<not> isdigit cat (take 1 rest)"
  by (cases rest) (auto simp: isdigit_def)

lemma scan_integer_literal_loop_step:
  assumes "digit_char cat x"
  shows "scan_integer_literal_loop cat in_string [x] self =
           scan_integer_literal_loop cat (in_string @ [x])
             (fst (next_character self)) (snd (next_character self))"
  using assms
  by (subst scan_integer_literal_loop.simps) (simp add: isdigit_def Let_def)

lemma scan_integer_literal_loop_stop:
  assumes "\<not> isdigit cat c"
  shows "scan_integer_literal_loop cat in_string c self = (in_string, c, self)"
  using assms by (subst scan_integer_literal_loop.simps) simp

lemma scan_integer_literal_loop_run:
  assumes "put_back_buffer self = []"
    and "file_rest self = xs @ rest"
    and "\<forall>y \<in> set (x # xs). digit_char cat y"
    and "rest = [] \<or> \<not> digit_char cat (hd rest)"
  shows "\<exists>self1. scan_integer_literal_loop cat in_string [x] self =
                  (in_string @ x # xs, take 1 rest, self1) \<and>
                put_back_buffer self1 = [] \<and> file_rest self1 = drop 1 rest \<and>
                current_token self1 = current_token self"
  using assms
proof (induction xs arbitrary: in_string x self)
  case Nil
  let ?self1 = "snd (next_character self)"
  have c1: "fst (next_character self) = take 1 rest"
    using Nil.prems by (simp add: next_character_from_file)
  have s1: "put_back_buffer ?self1 = []" "file_rest ?self1 = drop 1 rest"
           "current_token ?self1 = current_token self"
    using Nil.prems by (simp_all add: next_character_from_file)
  have x: "digit_char cat x" using Nil.prems(3) by simp
  have stop: "scan_integer_literal_loop cat (in_string @ [x]) (take 1 rest) ?self1 =
                (in_string @ [x], take 1 rest, ?self1)"
    by (rule scan_integer_literal_loop_stop [OF isdigit_take_1 [OF Nil.prems(4)]])
  show ?case
    using scan_integer_literal_loop_step [OF x, of in_string self] c1 stop s1 by auto
next
  case (Cons y ys)
  let ?self1 = "snd (next_character self)"
  have c1: "fst (next_character self) = [y]"
    using Cons.prems by (simp add: next_character_from_file)
  have s1: "put_back_buffer ?self1 = []" "file_rest ?self1 = ys @ rest"
           "current_token ?self1 = current_token self"
    using Cons.prems by (simp_all add: next_character_from_file)
  have all: "\<forall>z \<in> set (y # ys). digit_char cat z"
    using Cons.prems(3) by simp
  note IH = Cons.IH [OF s1(1) s1(2) all Cons.prems(4), of "in_string @ [x]"]
  have x: "digit_char cat x" using Cons.prems(3) by simp
  show ?case
    using scan_integer_literal_loop_step [OF x, of in_string self] c1 IH s1(3) by auto
qed

lemma scan_integer_literal_end_of_input:
  assumes "put_back_buffer self = []"
    and "file_rest self = xs"
    and "\<forall>y \<in> set (x # xs). digit_char cat y"
  shows "scan_integer_literal cat self [x] = Inl (TypeError 0)"
proof -
  have "file_rest self = xs @ []" using assms(2) by simp
  from scan_integer_literal_loop_run [OF assms(1) this assms(3), of "[]"]
  show ?thesis
    by (auto simp: scan_integer_literal_def put_back_def)
qed

lemma skip_stops_at_once:
  assumes "put_back_buffer self = []" and "file_rest self = x # xs" and "\<not> space_char cat x"
  shows "skip cat self = ([x], snd (next_character self))"
  using assms
  by (simp add: skip_def Let_def next_character_from_file skip_loop.simps isspace_def)


text \<open>
  Claim C6: let \<open>scan_identifier\<close> start at an identifier character \<open>x\<close> with the identifier
  characters \<open>xs\<close> next in the input, followed by the end of the input or by a character
  that is not an identifier character. It raises the identifier-too-long error exactly
  when the identifier \<open>x # xs\<close> has 512 characters or more; when it has fewer and a
  character follows, it returns the identifier, with that character put back.
\<close>
theorem scan_identifier_length_limit:
  assumes "put_back_buffer self = []"
    and "file_rest self = xs @ rest"
    and "\<forall>y \<in> set (x # xs). identifier_char cat y"
    and "rest = [] \<or> \<not> identifier_char cat (hd rest)"
  shows "(scan_identifier cat self [x] = Inl (EccoIdentifierError ''Identifier is too long!'')
            \<longleftrightarrow> 512 \<le> length (x # xs)) \<and>
         (length (x # xs) < 512 \<and> rest \<noteq> [] \<longrightarrow>
            (\<exists>self1. scan_identifier cat self [x] = Inr (x # xs, self1) \<and>
               put_back_buffer self1 = [hd rest] \<and> file_rest self1 = tl rest))"
proof (cases "512 \<le> length (x # xs)")
  case True
  then show ?thesis
    using scan_identifier_too_long [OF assms] by simp
next
  case short: False
  show ?thesis
  proof (cases rest)
    case Nil
    then have "scan_identifier cat self [x] = Inl (TypeError 0)"
      using scan_identifier_end_of_input [OF assms(1) _ assms(3)] assms(2) short by simp
    then show ?thesis using short Nil by simp
  next
    case (Cons d rest1)
    then have "\<not> identifier_char cat d" using assms(4) by simp
    from scan_identifier_terminated [OF assms(1) _ assms(3) this, of rest1] assms(2) short Cons
    show ?thesis by auto
  qed
qed

theorem scan_identifier_length_limit_witness:
  "scan_identifier ascii_catalog (Scanner_init (replicate 511 97)) [97] =
     Inl (EccoIdentifierError ''Identifier is too long!'') \<and>
   (\<exists>self1. scan_identifier ascii_catalog (Scanner_init (replicate 510 97 @ [59])) [97] =
        Inr (replicate 511 97, self1) \<and>
      put_back_buffer self1 = [59] \<and> file_rest self1 = [])"
proof -
  have a: "\<forall>y \<in> set (97 # replicate 511 97). identifier_char ascii_catalog y"
    by (simp add: identifier_char_def ascii_catalog_def)
  have b: "\<forall>y \<in> set (97 # replicate 510 97). identifier_char ascii_catalog y"
    by (simp add: identifier_char_def ascii_catalog_def)
  have c: "[59] = [] \<or> \<not> identifier_char ascii_catalog (hd [59])"
    by (simp add: identifier_char_def ascii_catalog_def)
  have long: "scan_identifier ascii_catalog (Scanner_init (replicate 511 97)) [97] =
     Inl (EccoIdentifierError ''Identifier is too long!'')"
    using scan_identifier_length_limit [where self = "Scanner_init (replicate 511 97)"
            and xs = "replicate 511 97" and rest = "[]" and cat = ascii_catalog and x = 97] a
    by (simp add: Scanner_init_def)
  have short: "\<exists>self1. scan_identifier ascii_catalog (Scanner_init (replicate 510 97 @ [59])) [97] =
        Inr (replicate 511 97, self1) \<and>
      put_back_buffer self1 = [59] \<and> file_rest self1 = []"
    using scan_identifier_length_limit [where self = "Scanner_init (replicate 510 97 @ [59])"
            and xs = "replicate 510 97" and rest = "[59]" and cat = ascii_catalog and x = 97] b c
    by (simp add: Scanner_init_def flip: replicate_Suc)
  show ?thesis using long short by simp
qed

text \<open>
  Claim C7: when a scanner with an empty put-back buffer has just delivered the single
  character \<open>c\<close>, \<open>put_back(c)\<close> succeeds and the next \<open>next_character()\<close> returns \<open>c\<close> and
  leaves the scanner as it was before \<open>put_back\<close>, the line and column counters included.
\<close>
theorem put_back_round_trip:
  assumes "put_back_buffer self0 = []"
    and "next_character self0 = (c, self)"
    and "length c = 1"
  shows "put_back self c = Inr (self\<lparr>put_back_buffer := c\<rparr>) \<and>
         next_character (self\<lparr>put_back_buffer := c\<rparr>) = (c, self) \<and>
         line_number (snd (next_character (self\<lparr>put_back_buffer := c\<rparr>))) = line_number self \<and>
         char_number (snd (next_character (self\<lparr>put_back_buffer := c\<rparr>))) = char_number self"
proof -
  have "put_back_buffer self = []"
    using assms(1,2) next_character_from_file(2) [OF assms(1)] by simp
  moreover have "c \<noteq> []" using assms(3) by auto
  ultimately have "next_character (self\<lparr>put_back_buffer := c\<rparr>) = (c, self)"
    by (simp add: next_character_def)
  then show ?thesis using assms(3) by (simp add: put_back_def)
qed

theorem put_back_round_trip_witness:
  "put_back_buffer (Scanner_init [120, 10, 121]) = [] \<and>
   next_character (Scanner_init [120, 10, 121]) =
     ([120], \<lparr>file_rest = [10, 121], put_back_buffer = [], line_number = 1, char_number = 2,
             current_token = None\<rparr>) \<and>
   put_back \<lparr>file_rest = [10, 121], put_back_buffer = [], line_number = 1, char_number = 2,
             current_token = None\<rparr> [120] =
     Inr \<lparr>file_rest = [10, 121], put_back_buffer = [120], line_number = 1, char_number = 2,
             current_token = None\<rparr> \<and>
   next_character \<lparr>file_rest = [10, 121], put_back_buffer = [120], line_number = 1,
             char_number = 2, current_token = None\<rparr> =
     ([120], \<lparr>file_rest = [10, 121], put_back_buffer = [], line_number = 1, char_number = 2,
             current_token = None\<rparr>)"
proof -
  have a: "put_back_buffer (Scanner_init [120, 10, 121]) = []"
    by (simp add: Scanner_init_def)
  have b: "next_character (Scanner_init [120, 10, 121]) =
     ([120], \<lparr>file_rest = [10, 121], put_back_buffer = [], line_number = 1, char_number = 2,
             current_token = None\<rparr>)"
    by (simp add: Scanner_init_def next_character_def)
  have c: "length [120::nat] = 1" by simp
  show ?thesis using put_back_round_trip [OF a b c] a b by simp
qed


lemma scan_dispatch:
  assumes "put_back_buffer self = []" and "file_rest self = x # xs"
    and "\<not> space_char cat x" and "from_string cat [x] = UNKNOWN_TOKEN"
  shows "digit_char cat x \<Longrightarrow>
           scan_integer_literal cat (snd (next_character self)) [x] = Inl e \<Longrightarrow>
           scan cat self = Inl e"
    and "\<not> digit_char cat x \<Longrightarrow> identifier_char cat x \<Longrightarrow>
           scan_identifier cat (snd (next_character self)) [x] = Inl e \<Longrightarrow>
           scan cat self = Inl e"
  using skip_stops_at_once [OF assms(1-3)] assms(4)
  by (auto simp: scan_def Let_def isdigit_def isalpha_def identifier_char_def)

text \<open>
  Claim C10, amended: when the digits of an integer literal, or the characters of an
  identifier of fewer than 512 characters, reach the end of the input, then
  \<open>scan_integer_literal\<close>, \<open>scan_identifier\<close> and \<open>scan\<close> raise the \<open>TypeError\<close> of \<open>put_back\<close> for a
  string of length 0.
\<close>
theorem scan_to_end_of_input_raises_TypeError:
  assumes "put_back_buffer self = []" and "file_rest self = x # xs"
  shows "((\<forall>y \<in> set (x # xs). digit_char cat y) \<longrightarrow>
            scan_integer_literal cat (snd (next_character self)) [x] = Inl (TypeError 0)) \<and>
         ((\<forall>y \<in> set (x # xs). identifier_char cat y) \<and> length (x # xs) < 512 \<longrightarrow>
            scan_identifier cat (snd (next_character self)) [x] = Inl (TypeError 0)) \<and>
         (\<not> space_char cat x \<and> from_string cat [x] = UNKNOWN_TOKEN \<and>
          ((\<forall>y \<in> set (x # xs). digit_char cat y) \<or>
           (\<not> digit_char cat x \<and> (\<forall>y \<in> set (x # xs). identifier_char cat y) \<and>
            length (x # xs) < 512)) \<longrightarrow>
            scan cat self = Inl (TypeError 0))"
proof -
  let ?self1 = "snd (next_character self)"
  have s1: "put_back_buffer ?self1 = []" "file_rest ?self1 = xs"
    using assms by (simp_all add: next_character_from_file)
  have digits: "scan_integer_literal cat ?self1 [x] = Inl (TypeError 0)"
    if "\<forall>y \<in> set (x # xs). digit_char cat y"
    using scan_integer_literal_end_of_input [OF s1 that] .
  have letters: "scan_identifier cat ?self1 [x] = Inl (TypeError 0)"
    if "\<forall>y \<in> set (x # xs). identifier_char cat y" and "length (x # xs) < 512"
    using scan_identifier_end_of_input [OF s1 that] .
  have "scan cat self = Inl (TypeError 0)"
    if "\<not> space_char cat x" and "from_string cat [x] = UNKNOWN_TOKEN"
      and "(\<forall>y \<in> set (x # xs). digit_char cat y) \<or>
           (\<not> digit_char cat x \<and> (\<forall>y \<in> set (x # xs). identifier_char cat y) \<and>
            length (x # xs) < 512)"
    using that(3)
  proof
    assume d: "\<forall>y \<in> set (x # xs). digit_char cat y"
    then have "digit_char cat x" by simp
    then show ?thesis
      using scan_dispatch(1) [OF assms that(1,2) _ digits [OF d]] by simp
  next
    assume i: "\<not> digit_char cat x \<and> (\<forall>y \<in> set (x # xs). identifier_char cat y) \<and>
            length (x # xs) < 512"
    then have "identifier_char cat x" by simp
    then show ?thesis
      using scan_dispatch(2) [OF assms that(1,2) _ _ letters] i by simp
  qed
  then show ?thesis using digits letters by blast
qed

theorem scan_to_end_of_input_raises_TypeError_witness:
  "scan ascii_catalog (Scanner_init (str_of ''123'')) = Inl (TypeError 0) \<and>
   scan ascii_catalog (Scanner_init (str_of ''print'')) = Inl (TypeError 0)"
proof -
  have "scan ascii_catalog (Scanner_init (str_of ''123'')) = Inl (TypeError 0)"
    using scan_to_end_of_input_raises_TypeError
            [where self = "Scanner_init (str_of ''123'')" and x = 49 and xs = "[50, 51]"
               and cat = ascii_catalog]
    by (simp add: Scanner_init_def str_of_def ascii_catalog_def)
  moreover have "scan ascii_catalog (Scanner_init (str_of ''print'')) = Inl (TypeError 0)"
    using scan_to_end_of_input_raises_TypeError
            [where self = "Scanner_init (str_of ''print'')" and x = 112
               and xs = "[114, 105, 110, 116]" and cat = ascii_catalog]
    by (simp add: Scanner_init_def str_of_def ascii_catalog_def identifier_char_def)
  ultimately show ?thesis by simp
qed

text \<open>
  Claim C10 as stated fails for a long identifier: when the whole input is 512 letters,
  scanning raises the identifier-too-long error, not the \<open>TypeError\<close> of \<open>put_back\<close>.
\<close>
theorem long_identifier_at_end_of_input_counterexample:
  "scan_identifier ascii_catalog (snd (next_character (Scanner_init (replicate 512 97)))) [97] =
     Inl (EccoIdentifierError ''Identifier is too long!'') \<and>
   scan ascii_catalog (Scanner_init (replicate 512 97)) =
     Inl (EccoIdentifierError ''Identifier is too long!'') \<and>
   scan ascii_catalog (Scanner_init (replicate 512 97)) \<noteq> Inl (TypeError 0)"
proof -
  let ?self = "Scanner_init (replicate 512 97)"
  have buf: "put_back_buffer ?self = []" by (simp add: Scanner_init_def)
  have rest: "file_rest ?self = 97 # replicate 511 97"
    by (simp add: Scanner_init_def flip: replicate_Suc)
  have s1: "put_back_buffer (snd (next_character ?self)) = []"
           "file_rest (snd (next_character ?self)) = replicate 511 97 @ []"
    using next_character_from_file(2,3) [OF buf] rest by simp_all
  have all: "\<forall>y \<in> set (97 # replicate 511 97). identifier_char ascii_catalog y"
    by (simp add: identifier_char_def ascii_catalog_def)
  have long: "scan_identifier ascii_catalog (snd (next_character ?self)) [97] =
     Inl (EccoIdentifierError ''Identifier is too long!'')"
    by (rule scan_identifier_too_long [OF s1 all]) simp_all
  have "scan ascii_catalog ?self = Inl (EccoIdentifierError ''Identifier is too long!'')"
    by (rule scan_dispatch(2) [OF buf rest _ _ _ _ long])
       (simp_all add: ascii_catalog_def identifier_char_def str_of_def)
  then show ?thesis using long by simp
qed

section \<open>Properties of the statement driver\<close>

lemma match_token_cases:
  assumes "current_token self = Some tok"
  shows "match_token cat tt self =
           (if token_type tok = tt then map_sum id snd (scan cat self)
            else Inl (EccoSyntaxError (Expected_but_got tt (token_type tok))))"
  using assms
  by (auto simp: match_token_def current_token_type_def split: sum.splits)

text \<open>
  Claim C9: with a current token, one resumption of the statement driver ends the sequence
  when that token is end-of-file; otherwise it yields a tree exactly when the current token
  is the print keyword, the scanner advances, the expression parser called with minimum
  precedence 0 returns that tree, the token then current is a semicolon and the scanner
  advances again. A current token that is neither end-of-file nor the print keyword, or a
  token after the expression that is not a semicolon, raises the syntax error that names
  the expected and the actual kind, and nothing is yielded. \<open>match_token\<close> is one
  \<open>scan\<close> when the kinds are equal and that syntax error otherwise.
\<close>
theorem statement_driver_grammar:
  assumes "current_token self = Some tok"
  shows "(token_type tok = EOF \<longrightarrow>
            parse_statements_next cat parse_binary_expression self = Inr (None, self)) \<and>
         (token_type tok \<noteq> EOF \<and> token_type tok \<noteq> PRINT \<longrightarrow>
            parse_statements_next cat parse_binary_expression self =
              Inl (EccoSyntaxError (Expected_but_got PRINT (token_type tok)))) \<and>
         (\<forall>tree self3.
            parse_statements_next cat parse_binary_expression self = Inr (Some tree, self3) \<longleftrightarrow>
              token_type tok = PRINT \<and>
              (\<exists>tok1 self1 self2 tok2 tok3.
                 scan cat self = Inr (tok1, self1) \<and>
                 parse_binary_expression 0 self1 = Inr (tree, self2) \<and>
                 current_token self2 = Some tok2 \<and> token_type tok2 = SEMICOLON \<and>
                 scan cat self2 = Inr (tok3, self3))) \<and>
         (\<forall>tok1 self1 tree self2 tok2.
            token_type tok = PRINT \<and> scan cat self = Inr (tok1, self1) \<and>
            parse_binary_expression 0 self1 = Inr (tree, self2) \<and>
            current_token self2 = Some tok2 \<and> token_type tok2 \<noteq> SEMICOLON \<longrightarrow>
              parse_statements_next cat parse_binary_expression self =
                Inl (EccoSyntaxError (Expected_but_got SEMICOLON (token_type tok2)))) \<and>
         (\<forall>tt. match_token cat tt self =
                 (if token_type tok = tt then map_sum id snd (scan cat self)
                  else Inl (EccoSyntaxError (Expected_but_got tt (token_type tok)))))"
proof (intro conjI allI impI)
  assume "token_type tok = EOF"
  then show "parse_statements_next cat parse_binary_expression self = Inr (None, self)"
    using assms by (simp add: parse_statements_next_def current_token_type_def)
next
  assume "token_type tok \<noteq> EOF \<and> token_type tok \<noteq> PRINT"
  then show "parse_statements_next cat parse_binary_expression self =
              Inl (EccoSyntaxError (Expected_but_got PRINT (token_type tok)))"
    using assms match_token_cases [OF assms, of cat PRINT]
    by (simp add: parse_statements_next_def current_token_type_def)
next
  fix tree self3
  show "parse_statements_next cat parse_binary_expression self = Inr (Some tree, self3) \<longleftrightarrow>
              token_type tok = PRINT \<and>
              (\<exists>tok1 self1 self2 tok2 tok3.
                 scan cat self = Inr (tok1, self1) \<and>
                 parse_binary_expression 0 self1 = Inr (tree, self2) \<and>
                 current_token self2 = Some tok2 \<and> token_type tok2 = SEMICOLON \<and>
                 scan cat self2 = Inr (tok3, self3))"
    using assms
    by (auto simp: parse_statements_next_def match_token_def current_token_type_def
             split: sum.splits option.splits if_splits)
next
  fix tok1 self1 tree self2 tok2
  assume "token_type tok = PRINT \<and> scan cat self = Inr (tok1, self1) \<and>
            parse_binary_expression 0 self1 = Inr (tree, self2) \<and>
            current_token self2 = Some tok2 \<and> token_type tok2 \<noteq> SEMICOLON"
  then show "parse_statements_next cat parse_binary_expression self =
                Inl (EccoSyntaxError (Expected_but_got SEMICOLON (token_type tok2)))"
    using assms
    by (simp add: parse_statements_next_def match_token_def current_token_type_def)
next
  fix tt
  show "match_token cat tt self =
                 (if token_type tok = tt then map_sum id snd (scan cat self)
                  else Inl (EccoSyntaxError (Expected_but_got tt (token_type tok))))"
    by (rule match_token_cases [OF assms])
qed

theorem statement_driver_grammar_witness:
  "parse_statements_next ascii_catalog literal_parser
     \<lparr>file_rest = str_of ''12;'', put_back_buffer = str_of '' '', line_number = 1,
      char_number = 7, current_token = Some \<lparr>token_type = PRINT, token_value = None\<rparr>\<rparr> =
     Inr (Some 12,
       \<lparr>file_rest = [], put_back_buffer = [], line_number = 1, char_number = 11,
        current_token = Some \<lparr>token_type = EOF, token_value = None\<rparr>\<rparr>) \<and>
   parse_statements_next ascii_catalog literal_parser
     \<lparr>file_rest = [], put_back_buffer = [], line_number = 1, char_number = 11,
      current_token = Some \<lparr>token_type = EOF, token_value = None\<rparr>\<rparr> =
     Inr (None,
       \<lparr>file_rest = [], put_back_buffer = [], line_number = 1, char_number = 11,
        current_token = Some \<lparr>token_type = EOF, token_value = None\<rparr>\<rparr>) \<and>
   parse_statements_next ascii_catalog literal_parser
     \<lparr>file_rest = [], put_back_buffer = [], line_number = 1, char_number = 10,
      current_token = Some \<lparr>token_type = SEMICOLON, token_value = None\<rparr>\<rparr> =
     Inl (EccoSyntaxError (Expected_but_got PRINT SEMICOLON))"
proof -
  let ?T1 = "\<lparr>token_type = PRINT, token_value = None\<rparr>"
  let ?S1 = "\<lparr>file_rest = str_of ''12;'', put_back_buffer = str_of '' '', line_number = 1,
      char_number = 7, current_token = Some ?T1\<rparr>"
  let ?T2 = "\<lparr>token_type = INTEGER_LITERAL, token_value = Some 12\<rparr>"
  let ?S2 = "\<lparr>file_rest = [], put_back_buffer = [59], line_number = 1, char_number = 10,
      current_token = Some ?T2\<rparr>"
  let ?T3 = "\<lparr>token_type = SEMICOLON, token_value = None\<rparr>"
  let ?S3 = "\<lparr>file_rest = [], put_back_buffer = [], line_number = 1, char_number = 10,
      current_token = Some ?T3\<rparr>"
  let ?T4 = "\<lparr>token_type = EOF, token_value = None\<rparr>"
  let ?S4 = "\<lparr>file_rest = [], put_back_buffer = [], line_number = 1, char_number = 11,
      current_token = Some ?T4\<rparr>"
  have e1: "scan ascii_catalog ?S1 = Inr (?T2, ?S2)" by code_simp
  have e2: "literal_parser 0 ?S2 = Inr (12, ?S3)" by code_simp
  have e3: "scan ascii_catalog ?S3 = Inr (?T4, ?S4)" by code_simp
  have c1: "current_token ?S1 = Some ?T1" by simp
  have c3: "current_token ?S3 = Some ?T3" by simp
  have c4: "current_token ?S4 = Some ?T4" by simp
  have yield: "parse_statements_next ascii_catalog literal_parser ?S1 = Inr (Some 12, ?S4)"
  proof -
    have "token_type ?T1 = PRINT \<and>
          (\<exists>tok1 self1 self2 tok2 tok3.
             scan ascii_catalog ?S1 = Inr (tok1, self1) \<and>
             literal_parser 0 self1 = Inr (12, self2) \<and>
             current_token self2 = Some tok2 \<and> token_type tok2 = SEMICOLON \<and>
             scan ascii_catalog self2 = Inr (tok3, ?S4))"
      using e1 e2 e3 c3 by (intro conjI exI [of _ ?T2] exI [of _ ?S2] exI [of _ ?S3] exI [of _ ?T3] exI [of _ ?T4]) simp_all
    then show ?thesis
      using statement_driver_grammar [OF c1, of ascii_catalog literal_parser] by blast
  qed
  have stop: "parse_statements_next ascii_catalog literal_parser ?S4 = Inr (None, ?S4)"
    using statement_driver_grammar [OF c4, of ascii_catalog literal_parser] by simp
  have mismatch: "parse_statements_next ascii_catalog literal_parser ?S3 =
      Inl (EccoSyntaxError (Expected_but_got PRINT SEMICOLON))"
    using statement_driver_grammar [OF c3, of ascii_catalog literal_parser] by simp
  show ?thesis using yield stop mismatch by simp
qed

end
